theory Spec2Isabelle
  imports Complex_Main "HOL-Library.AList" "HOL-Library.Sublist"
begin

section \<open>The event-relay pipeline of \<^verbatim>\<open>script.py\<close>\<close>

text \<open>
  The embedding follows \<^verbatim>\<open>src/script.py\<close>: the classes \<^verbatim>\<open>StateDB\<close>,
  \<^verbatim>\<open>RelayerService\<close>, \<^verbatim>\<open>EventProcessor\<close> and \<^verbatim>\<open>EventListener\<close>.
  Everything outside the program (the state file, the JSON library, the HTTP endpoint, the
  chain node, the clock) answers through explicit values: each function takes the answer
  the outside world gives to the calls it makes, so a theorem quantified over these answers
  covers every behaviour of the environment.
\<close>

subsection \<open>Python values\<close>

text \<open>
  The values \<^verbatim>\<open>json.load\<close> can return and \<^verbatim>\<open>json.dump\<close> can write. A \<^verbatim>\<open>dict\<close> is
  an association list in insertion order; item assignment is \<open>AList.update\<close>, which
  replaces the value of a present key in place and appends an absent one, as Python does.
  A \<^verbatim>\<open>float\<close> is finite (\<open>JFloat\<close>) or one of \<^verbatim>\<open>nan\<close>, \<^verbatim>\<open>inf\<close> and \<^verbatim>\<open>-inf\<close>, which
  \<^verbatim>\<open>json.load\<close> returns for the literals \<^verbatim>\<open>NaN\<close>, \<^verbatim>\<open>Infinity\<close> and \<^verbatim>\<open>-Infinity\<close>
  (texts beyond JSON that it accepts) and for a number too large for a double.
\<close>

datatype json =
    JNull
  | JBool bool
  | JInt int
  | JFloat real
  | JNaN
  | JInfinity
  | JNegInfinity
  | JStr string
  | JList "json list"
  | JDict "(string \<times> json) list"

text \<open>The exceptions of the program that are not handled where they arise.\<close>

datatype py_error =
    TypeError
  | ValueError
  | OSError
  | RecursionError
  | ChainError

text \<open>
  \<^verbatim>\<open>key in container\<close> for a \<^verbatim>\<open>str\<close> key: key membership in a dict, element
  equality in a list, substring test in a string; a number, a boolean and \<^verbatim>\<open>None\<close> are
  not iterable and raise \<^verbatim>\<open>TypeError\<close>.
\<close>

fun py_contains :: "json \<Rightarrow> string \<Rightarrow> py_error + bool" where
  "py_contains (JDict kvs) k = Inr (k \<in> set (map fst kvs))"
| "py_contains (JList xs) k = Inr (JStr k \<in> set xs)"
| "py_contains (JStr t) k = Inr (sublist k t)"
| "py_contains JNull k = Inl TypeError"
| "py_contains (JBool b) k = Inl TypeError"
| "py_contains (JInt i) k = Inl TypeError"
| "py_contains (JFloat r) k = Inl TypeError"
| "py_contains JNaN k = Inl TypeError"
| "py_contains JInfinity k = Inl TypeError"
| "py_contains JNegInfinity k = Inl TypeError"

text \<open>
  \<^verbatim>\<open>container[key] = value\<close> for a \<^verbatim>\<open>str\<close> key: only a dict supports it (a list
  wants an integer index, a string is immutable, the rest is not subscriptable).
\<close>

fun py_setitem :: "json \<Rightarrow> string \<Rightarrow> json \<Rightarrow> py_error + json" where
  "py_setitem (JDict kvs) k v = Inr (JDict (AList.update k v kvs))"
| "py_setitem (JList xs) k v = Inl TypeError"
| "py_setitem (JStr t) k v = Inl TypeError"
| "py_setitem JNull k v = Inl TypeError"
| "py_setitem (JBool b) k v = Inl TypeError"
| "py_setitem (JInt i) k v = Inl TypeError"
| "py_setitem (JFloat r) k v = Inl TypeError"
| "py_setitem JNaN k v = Inl TypeError"
| "py_setitem JInfinity k v = Inl TypeError"
| "py_setitem JNegInfinity k v = Inl TypeError"

text \<open>
  \<^verbatim>\<open>len(value)\<close>: the number of keys of a dict, of elements of a list, of characters
  of a string; the other values have no length and raise \<^verbatim>\<open>TypeError\<close>.
\<close>

fun py_len :: "json \<Rightarrow> py_error + nat" where
  "py_len (JDict kvs) = Inr (length (remdups (map fst kvs)))"
| "py_len (JList xs) = Inr (length xs)"
| "py_len (JStr t) = Inr (length t)"
| "py_len JNull = Inl TypeError"
| "py_len (JBool b) = Inl TypeError"
| "py_len (JInt i) = Inl TypeError"
| "py_len (JFloat r) = Inl TypeError"
| "py_len JNaN = Inl TypeError"
| "py_len JInfinity = Inl TypeError"
| "py_len JNegInfinity = Inl TypeError"

text \<open>\<^verbatim>\<open>str(n)\<close> for an integer, as the f-string of the event signature formats it.\<close>

fun digits :: "nat \<Rightarrow> string" where
  "digits n =
     (if n < 10 then [''0123456789'' ! n]
      else digits (n div 10) @ [''0123456789'' ! (n mod 10)])"

definition str_int :: "int \<Rightarrow> string" where
  "str_int i = (if i < 0 then CHR ''-'' # digits (nat (- i)) else digits (nat i))"

subsection \<open>The outside world\<close>

text \<open>
  What \<^verbatim>\<open>open(state_file_path, 'r')\<close> followed by \<^verbatim>\<open>json.load\<close> does, case by
  case of the outcome:
  \<^item> \<open>Absent\<close>: \<^verbatim>\<open>open\<close> raises \<^verbatim>\<open>FileNotFoundError\<close>;
  \<^item> \<open>Inaccessible\<close>: \<^verbatim>\<open>open\<close> or the read raises another \<^verbatim>\<open>OSError\<close> (a
    permission error, a directory);
  \<^item> \<open>Undecodable\<close>: the bytes are not text in the default encoding and the read raises
    \<^verbatim>\<open>UnicodeDecodeError\<close>, a \<^verbatim>\<open>ValueError\<close> that is not a \<^verbatim>\<open>JSONDecodeError\<close>;
  \<^item> \<open>Malformed\<close>: \<^verbatim>\<open>json.load\<close> raises \<^verbatim>\<open>json.JSONDecodeError\<close>;
  \<^item> \<open>Overlong\<close>: \<^verbatim>\<open>json.load\<close> raises a plain \<^verbatim>\<open>ValueError\<close>, as it does for an
    integer literal beyond the interpreter's digit limit, although the text is JSON;
  \<^item> \<open>TooDeep\<close>: \<^verbatim>\<open>json.load\<close> raises \<^verbatim>\<open>RecursionError\<close>, as it does for a text
    nested too deeply, although the text is JSON;
  \<^item> \<open>Holds j\<close>: \<^verbatim>\<open>json.load\<close> returns the value \<open>j\<close>. The text is a JSON document or
    one that \<^verbatim>\<open>json.load\<close> accepts beyond JSON (with \<^verbatim>\<open>NaN\<close> or \<^verbatim>\<open>Infinity\<close>).
  So the cases are told apart by what the library does, not by whether the text is JSON.
\<close>

datatype store =
    Absent
  | Inaccessible
  | Undecodable
  | Malformed
  | Overlong
  | TooDeep
  | Holds json

text \<open>
  What \<^verbatim>\<open>open(state_file_path, 'w')\<close> followed by \<^verbatim>\<open>json.dump\<close> meets: the
  file is written; \<^verbatim>\<open>open\<close> raises \<^verbatim>\<open>IOError\<close> and the file stays as it was; or
  \<^verbatim>\<open>json.dump\<close> raises \<^verbatim>\<open>IOError\<close> after \<^verbatim>\<open>open\<close> has truncated the file, which
  leaves a proper prefix of the document.
\<close>

datatype write_outcome =
    Written
  | OpenFailed
  | DumpFailed

text \<open>
  What \<^verbatim>\<open>response.json()\<close> does: it decodes the body, or the body is not JSON and it
  raises \<^verbatim>\<open>requests.exceptions.JSONDecodeError\<close> (requests 2.27 and later, a
  \<^verbatim>\<open>RequestException\<close>) or a plain \<^verbatim>\<open>ValueError\<close> (earlier versions of requests).
\<close>

datatype body_json =
    Decodes
  | RaisesRequestException
  | RaisesValueError

text \<open>
  What \<^verbatim>\<open>requests.post\<close> meets: a transport error (connection, timeout, too many
  redirects: each a \<^verbatim>\<open>RequestException\<close>), or a response with a status code.
\<close>

datatype http_outcome =
    TransportError
  | Response int body_json

text \<open>The answers one call of \<^verbatim>\<open>process_event\<close> may ask for.\<close>

record answers =
  http :: http_outcome
  clock :: real
  save :: write_outcome

text \<open>The fields of a \<^verbatim>\<open>LogReceipt\<close> that the program reads.\<close>

record event_args =
  sender :: string
  recipient :: string
  amount :: int
  destinationChainId :: int

record log_receipt =
  transactionHash :: string
  logIndex :: int
  args :: event_args

text \<open>
  The answers of one poll cycle: \<^verbatim>\<open>get_latest_block_number()\<close> (\<open>None\<close> as in the
  source), and \<^verbatim>\<open>create_filter(...).get_all_entries()\<close>, which raises or returns the
  logs, each with the answers its processing will get.
\<close>

record cycle =
  latest_block :: "int option"
  entries :: "py_error + (log_receipt \<times> answers) list"

text \<open>The calls the program makes to the outside, in order.\<close>

datatype effect =
    Dispatch json
  | Commit string
  | GetLogs int int
  | Sleep int

subsection \<open>The program state\<close>

text \<open>
  One \<^verbatim>\<open>StateDB\<close> (\<open>processed_events\<close>, with the content of its state file) and one
  \<^verbatim>\<open>EventListener\<close> (\<open>current_block\<close>, \<open>poll_interval\<close>,
  \<open>reorg_confirmation_depth\<close>), wired together by \<^verbatim>\<open>main\<close>; \<open>trace\<close> records the
  effects so far.
\<close>

record system =
  processed_events :: json
  state_file :: store
  current_block :: int
  poll_interval :: int
  reorg_confirmation_depth :: int
  trace :: "effect list"

definition emit :: "effect \<Rightarrow> system \<Rightarrow> system" where
  "emit e s = s\<lparr>trace := trace s @ [e]\<rparr>"

subsection \<open>\<^verbatim>\<open>StateDB\<close>\<close>

fun load_state :: "store \<Rightarrow> py_error + json" where
  "load_state (Holds j) = Inr j"
| "load_state Absent = Inr (JDict [])"
| "load_state Malformed = Inr (JDict [])"
| "load_state Inaccessible = Inl OSError"
| "load_state Undecodable = Inl ValueError"
| "load_state Overlong = Inl ValueError"
| "load_state TooDeep = Inl RecursionError"

fun save_state :: "system \<Rightarrow> write_outcome \<Rightarrow> system" where
  "save_state s Written = s\<lparr>state_file := Holds (processed_events s)\<rparr>"
| "save_state s OpenFailed = s"
| "save_state s DumpFailed = s\<lparr>state_file := Malformed\<rparr>"

definition is_event_processed :: "system \<Rightarrow> string \<Rightarrow> py_error + bool" where
  "is_event_processed s event_signature = py_contains (processed_events s) event_signature"

definition mark_event_as_processed ::
  "system \<Rightarrow> string \<Rightarrow> json \<Rightarrow> real \<Rightarrow> write_outcome \<Rightarrow> py_error option \<times> system" where
  "mark_event_as_processed s event_signature event_data now w =
     (case py_setitem (processed_events s) event_signature
             (JDict [(''data'', event_data), (''processed_at'', JFloat now)]) of
        Inl e \<Rightarrow> (Some e, s)
      | Inr pe \<Rightarrow>
          (None, save_state (emit (Commit event_signature) (s\<lparr>processed_events := pe\<rparr>)) w))"

subsection \<open>\<^verbatim>\<open>RelayerService\<close>\<close>

text \<open>
  \<^verbatim>\<open>raise_for_status\<close> raises \<^verbatim>\<open>HTTPError\<close> (a \<^verbatim>\<open>RequestException\<close>) for a status
  from 400 to 599. The log line after it evaluates \<^verbatim>\<open>response.json()\<close> inside the
  \<^verbatim>\<open>try\<close>.
\<close>

fun relay_transaction :: "json \<Rightarrow> http_outcome \<Rightarrow> py_error + bool" where
  "relay_transaction event_data TransportError = Inr False"
| "relay_transaction event_data (Response status body) =
     (if 400 \<le> status \<and> status < 600 then Inr False
      else (case body of
              Decodes \<Rightarrow> Inr True
            | RaisesRequestException \<Rightarrow> Inr False
            | RaisesValueError \<Rightarrow> Inl ValueError))"

subsection \<open>\<^verbatim>\<open>EventProcessor\<close>\<close>

definition signature :: "log_receipt \<Rightarrow> string" where
  "signature event = transactionHash event @ ''-'' @ str_int (logIndex event)"

definition processed_data :: "log_receipt \<Rightarrow> json" where
  "processed_data event =
     JDict [(''source_transaction_hash'', JStr (transactionHash event)),
            (''sender'', JStr (sender (args event))),
            (''recipient'', JStr (recipient (args event))),
            (''amount'', JInt (amount (args event))),
            (''destination_chain_id'', JInt (destinationChainId (args event)))]"

definition process_event ::
  "system \<Rightarrow> log_receipt \<Rightarrow> answers \<Rightarrow> py_error option \<times> system" where
  "process_event s event a =
     (case is_event_processed s (signature event) of
        Inl e \<Rightarrow> (Some e, s)
      | Inr True \<Rightarrow> (None, s)
      | Inr False \<Rightarrow>
          (let s1 = emit (Dispatch (processed_data event)) s in
           case relay_transaction (processed_data event) (http a) of
             Inl e \<Rightarrow> (Some e, s1)
           | Inr True \<Rightarrow>
               mark_event_as_processed s1 (signature event) (processed_data event)
                 (clock a) (save a)
           | Inr False \<Rightarrow> (None, s1)))"

subsection \<open>\<^verbatim>\<open>EventListener\<close>\<close>

text \<open>The \<^verbatim>\<open>for event in events\<close> loop: an exception leaves it at once.\<close>

fun process_events ::
  "system \<Rightarrow> (log_receipt \<times> answers) list \<Rightarrow> py_error option \<times> system" where
  "process_events s [] = (None, s)"
| "process_events s ((event, a) # rest) =
     (case process_event s event a of
        (Some e, s') \<Rightarrow> (Some e, s')
      | (None, s') \<Rightarrow> process_events s' rest)"

text \<open>
  One iteration of the \<^verbatim>\<open>while True\<close> loop of \<^verbatim>\<open>start\<close>. The two \<^verbatim>\<open>continue\<close>
  branches sleep once; the handler of \<^verbatim>\<open>except Exception\<close> sleeps twice the poll
  interval and falls through to the sleep that ends the iteration.
\<close>

definition poll_cycle :: "system \<Rightarrow> cycle \<Rightarrow> system" where
  "poll_cycle s c =
     (case latest_block c of
        None \<Rightarrow> emit (Sleep (poll_interval s)) s
      | Some latest \<Rightarrow>
          (let target_block = latest - reorg_confirmation_depth s in
           if current_block s > target_block then emit (Sleep (poll_interval s)) s
           else
             (let s1 = emit (GetLogs (current_block s) target_block) s in
              case entries c of
                Inl e \<Rightarrow>
                  emit (Sleep (poll_interval s1)) (emit (Sleep (poll_interval s1 * 2)) s1)
              | Inr events \<Rightarrow>
                  (case process_events s1 events of
                     (Some e, s2) \<Rightarrow>
                       emit (Sleep (poll_interval s2)) (emit (Sleep (poll_interval s2 * 2)) s2)
                   | (None, s2) \<Rightarrow>
                       emit (Sleep (poll_interval s2))
                         (s2\<lparr>current_block := target_block + 1\<rparr>)))))"

text \<open>
  The loop never ends by itself; \<open>start s cs\<close> is the state after the poll cycles whose
  answers are \<open>cs\<close>, for any finite number of them.
\<close>

fun start :: "system \<Rightarrow> cycle list \<Rightarrow> system" where
  "start s [] = s"
| "start s (c # cs) = start (poll_cycle s c) cs"

text \<open>
  \<^verbatim>\<open>StateDB.__init__\<close> and \<^verbatim>\<open>EventListener.__init__\<close>: the ledger is what
  \<^verbatim>\<open>_load_state\<close> returns; the log line of \<^verbatim>\<open>StateDB.__init__\<close> evaluates
  \<^verbatim>\<open>len(self.processed_events)\<close>, which raises for a value without a length; the poll
  interval is 15 seconds, the confirmation depth 5.
\<close>

definition init :: "store \<Rightarrow> int \<Rightarrow> py_error + system" where
  "init file start_block =
     (case load_state file of
        Inl e \<Rightarrow> Inl e
      | Inr pe \<Rightarrow>
          (case py_len pe of
             Inl e \<Rightarrow> Inl e
           | Inr n \<Rightarrow>
             Inr \<lparr>processed_events = pe, state_file = file, current_block = start_block,
                  poll_interval = 15, reorg_confirmation_depth = 5, trace = []\<rparr>))"

subsection \<open>Reading the trace\<close>

fun scanned :: "effect list \<Rightarrow> (int \<times> int) list" where
  "scanned [] = []"
| "scanned (GetLogs a b # t) = (a, b) # scanned t"
| "scanned (Dispatch d # t) = scanned t"
| "scanned (Commit k # t) = scanned t"
| "scanned (Sleep n # t) = scanned t"

fun dispatched :: "effect list \<Rightarrow> json list" where
  "dispatched [] = []"
| "dispatched (Dispatch d # t) = d # dispatched t"
| "dispatched (Commit k # t) = dispatched t"
| "dispatched (GetLogs a b # t) = dispatched t"
| "dispatched (Sleep n # t) = dispatched t"

fun committed :: "effect list \<Rightarrow> string list" where
  "committed [] = []"
| "committed (Commit k # t) = k # committed t"
| "committed (Dispatch d # t) = committed t"
| "committed (GetLogs a b # t) = committed t"
| "committed (Sleep n # t) = committed t"

fun slept :: "effect list \<Rightarrow> int list" where
  "slept [] = []"
| "slept (Sleep n # t) = n # slept t"
| "slept (Dispatch d # t) = slept t"
| "slept (Commit k # t) = slept t"
| "slept (GetLogs a b # t) = slept t"

subsection \<open>The signatures a batch delivers\<close>

text \<open>The signatures of the events of a batch whose answer lets the relay succeed.\<close>

definition delivered_signatures :: "(log_receipt \<times> answers) list \<Rightarrow> string set" where
  "delivered_signatures batch =
     set (map (\<lambda>(e, a). signature e)
            (filter (\<lambda>(e, a). relay_transaction (processed_data e) (http a) = Inr True) batch))"

subsection \<open>Concrete inputs\<close>

definition example_event :: log_receipt where
  "example_event =
     \<lparr>transactionHash = ''0xabc'', logIndex = 2,
      args = \<lparr>sender = ''0x01'', recipient = ''0x02'', amount = 1000,
              destinationChainId = 137\<rparr>\<rparr>"

definition other_event :: log_receipt where
  "other_event =
     \<lparr>transactionHash = ''0xabc'', logIndex = 3,
      args = \<lparr>sender = ''0x03'', recipient = ''0x04'', amount = 7,
              destinationChainId = 10\<rparr>\<rparr>"

definition example_system :: system where
  "example_system =
     \<lparr>processed_events = JDict [], state_file = Holds (JDict []), current_block = 80,
      poll_interval = 15, reorg_confirmation_depth = 5, trace = []\<rparr>"

definition delivered :: answers where
  "delivered = \<lparr>http = Response 200 Decodes, clock = 1700000000, save = Written\<rparr>"

definition server_error :: answers where
  "server_error = \<lparr>http = Response 500 Decodes, clock = 1700000001, save = Written\<rparr>"

definition list_system :: system where
  "list_system =
     \<lparr>processed_events = JList [], state_file = Holds (JList []), current_block = 80,
      poll_interval = 15, reorg_confirmation_depth = 5, trace = []\<rparr>"

definition no_content :: answers where
  "no_content =
     \<lparr>http = Response 204 RaisesValueError, clock = 1700000003, save = Written\<rparr>"

definition example_batch :: "(log_receipt \<times> answers) list" where
  "example_batch = [(example_event, delivered), (other_event, server_error)]"

definition example_cycle :: cycle where
  "example_cycle =
     \<lparr>latest_block = Some 100,
      entries = Inr example_batch\<rparr>"

definition failing_cycle :: cycle where
  "failing_cycle = \<lparr>latest_block = Some 100, entries = Inl ChainError\<rparr>"

subsection \<open>Frames\<close>

text \<open>The listener's fields are not touched by the processing of an event.\<close>

definition same_listener :: "system \<Rightarrow> system \<Rightarrow> bool" where
  "same_listener s s' \<longleftrightarrow>
     current_block s' = current_block s \<and> poll_interval s' = poll_interval s \<and>
     reorg_confirmation_depth s' = reorg_confirmation_depth s \<and>
     scanned (trace s') = scanned (trace s) \<and> slept (trace s') = slept (trace s)"

section \<open>Properties\<close>

subsection \<open>Frame lemmas\<close>

declare digits.simps [simp del]

lemma scanned_append: "scanned (t @ u) = scanned t @ scanned u"
  by (induction t rule: scanned.induct) simp_all

lemma dispatched_append: "dispatched (t @ u) = dispatched t @ dispatched u"
  by (induction t rule: dispatched.induct) simp_all

lemma committed_append: "committed (t @ u) = committed t @ committed u"
  by (induction t rule: committed.induct) simp_all

lemma slept_append: "slept (t @ u) = slept t @ slept u"
  by (induction t rule: slept.induct) simp_all

lemma emit_fields:
  "processed_events (emit e s) = processed_events s"
  "state_file (emit e s) = state_file s"
  "current_block (emit e s) = current_block s"
  "poll_interval (emit e s) = poll_interval s"
  "reorg_confirmation_depth (emit e s) = reorg_confirmation_depth s"
  "trace (emit e s) = trace s @ [e]"
  by (simp_all add: emit_def)

lemma save_state_fields:
  "processed_events (save_state s w) = processed_events s"
  "current_block (save_state s w) = current_block s"
  "poll_interval (save_state s w) = poll_interval s"
  "reorg_confirmation_depth (save_state s w) = reorg_confirmation_depth s"
  "trace (save_state s w) = trace s"
  by (cases w; simp)+

lemma same_listener_refl: "same_listener s s"
  by (simp add: same_listener_def)

lemma same_listener_trans:
  "same_listener s s' \<Longrightarrow> same_listener s' s'' \<Longrightarrow> same_listener s s''"
  by (simp add: same_listener_def)

lemma mark_same_listener:
  "same_listener s (snd (mark_event_as_processed s k d now w))"
  by (cases "processed_events s")
     (simp_all add: mark_event_as_processed_def same_listener_def save_state_fields
        emit_fields scanned_append slept_append)

lemma process_event_same_listener: "same_listener s (snd (process_event s ev a))"
proof -
  let ?s1 = "emit (Dispatch (processed_data ev)) s"
  have s1: "same_listener s ?s1"
    by (simp add: same_listener_def emit_fields scanned_append slept_append)
  have mark: "same_listener s
      (snd (mark_event_as_processed ?s1 (signature ev) (processed_data ev) (clock a) (save a)))"
    using same_listener_trans [OF s1 mark_same_listener] .
  show ?thesis
    using s1 mark
    by (simp add: process_event_def same_listener_refl Let_def
          split: sum.split bool.split)
qed

lemma process_events_same_listener: "same_listener s (snd (process_events s evs))"
proof (induction evs arbitrary: s)
  case Nil
  show ?case by (simp add: same_listener_refl)
next
  case (Cons x evs)
  obtain ev a where x: "x = (ev, a)" by (cases x)
  obtain r s' where step: "process_event s ev a = (r, s')" by (cases "process_event s ev a")
  have one: "same_listener s s'"
    using process_event_same_listener [of s ev a] step by simp
  show ?case
  proof (cases r)
    case None
    then show ?thesis
      using x step same_listener_trans [OF one Cons.IH [of s']] by simp
  next
    case (Some e)
    then show ?thesis using x step one by simp
  qed
qed

text \<open>What one poll cycle does to the cursor and which range it requests.\<close>

lemma poll_cycle_scanned:
  "scanned (trace (poll_cycle s c)) =
     scanned (trace s) @
       (case latest_block c of
          None \<Rightarrow> []
        | Some latest \<Rightarrow>
            if current_block s > latest - reorg_confirmation_depth s then []
            else [(current_block s, latest - reorg_confirmation_depth s)])"
proof (cases "latest_block c")
  case None
  then show ?thesis by (simp add: poll_cycle_def emit_fields scanned_append)
next
  case (Some latest)
  let ?t = "latest - reorg_confirmation_depth s"
  let ?s1 = "emit (GetLogs (current_block s) ?t) s"
  show ?thesis
  proof (cases "current_block s > ?t")
    case True
    then show ?thesis using Some by (simp add: poll_cycle_def emit_fields scanned_append)
  next
    case False
    show ?thesis
    proof (cases "entries c")
      case (Inl e)
      then show ?thesis
        using Some False by (simp add: poll_cycle_def emit_fields scanned_append Let_def)
    next
      case (Inr events)
      obtain r s2 where run: "process_events ?s1 events = (r, s2)"
        by (cases "process_events ?s1 events")
      have "same_listener ?s1 s2"
        using process_events_same_listener [of ?s1 events] run by simp
      then have "scanned (trace s2) = scanned (trace s) @ [(current_block s, ?t)]"
        by (simp add: same_listener_def emit_fields scanned_append)
      then show ?thesis
        using Some False Inr run
        by (cases r) (simp_all add: poll_cycle_def emit_fields scanned_append Let_def)
    qed
  qed
qed

lemma poll_cycle_cursor:
  "current_block (poll_cycle s c) = current_block s \<or>
   (\<exists>latest. latest_block c = Some latest \<and>
      current_block s \<le> latest - reorg_confirmation_depth s \<and>
      current_block (poll_cycle s c) = latest - reorg_confirmation_depth s + 1)"
proof (cases "latest_block c")
  case None
  then show ?thesis by (simp add: poll_cycle_def emit_fields)
next
  case (Some latest)
  let ?t = "latest - reorg_confirmation_depth s"
  let ?s1 = "emit (GetLogs (current_block s) ?t) s"
  show ?thesis
  proof (cases "current_block s > ?t")
    case True
    then show ?thesis using Some by (simp add: poll_cycle_def emit_fields)
  next
    case False
    show ?thesis
    proof (cases "entries c")
      case (Inl e)
      then show ?thesis using Some False by (simp add: poll_cycle_def emit_fields Let_def)
    next
      case (Inr events)
      obtain r s2 where run: "process_events ?s1 events = (r, s2)"
        by (cases "process_events ?s1 events")
      have "same_listener ?s1 s2"
        using process_events_same_listener [of ?s1 events] run by simp
      then have "current_block s2 = current_block s"
        by (simp add: same_listener_def emit_fields)
      then show ?thesis
        using Some False Inr run
        by (cases r) (simp_all add: poll_cycle_def emit_fields Let_def)
    qed
  qed
qed

lemma poll_cycle_depth:
  "reorg_confirmation_depth (poll_cycle s c) = reorg_confirmation_depth s"
proof (cases "latest_block c")
  case None
  then show ?thesis by (simp add: poll_cycle_def emit_fields)
next
  case (Some latest)
  let ?t = "latest - reorg_confirmation_depth s"
  let ?s1 = "emit (GetLogs (current_block s) ?t) s"
  show ?thesis
  proof (cases "entries c")
    case (Inl e)
    then show ?thesis using Some by (simp add: poll_cycle_def emit_fields Let_def)
  next
    case (Inr events)
    obtain r s2 where run: "process_events ?s1 events = (r, s2)"
      by (cases "process_events ?s1 events")
    have "same_listener ?s1 s2"
      using process_events_same_listener [of ?s1 events] run by simp
    then have "reorg_confirmation_depth s2 = reorg_confirmation_depth s"
      by (simp add: same_listener_def emit_fields)
    then show ?thesis
      using Some Inr run
      by (cases r) (simp_all add: poll_cycle_def emit_fields Let_def)
  qed
qed

lemma start_append: "start s (cs @ ds) = start (start s cs) ds"
  by (induction cs arbitrary: s) simp_all

lemma start_cursor_mono: "current_block s \<le> current_block (start s cs)"
proof (induction cs arbitrary: s)
  case Nil
  show ?case by simp
next
  case (Cons c cs)
  have "current_block s \<le> current_block (poll_cycle s c)"
    using poll_cycle_cursor [of s c] by auto
  also have "\<dots> \<le> current_block (start (poll_cycle s c) cs)"
    by (rule Cons.IH)
  finally show ?case by simp
qed

subsection \<open>The relay's classification\<close>

lemma relay_transaction_cases:
  "relay_transaction d TransportError = Inr False"
  "400 \<le> st \<Longrightarrow> st < 600 \<Longrightarrow> relay_transaction d (Response st body) = Inr False"
  "200 \<le> st \<Longrightarrow> st < 300 \<Longrightarrow> relay_transaction d (Response st Decodes) = Inr True"
  by simp_all

subsection \<open>The ledger along a batch\<close>

lemma delivered_signatures_Nil: "delivered_signatures [] = {}"
  by (simp add: delivered_signatures_def)

lemma delivered_signatures_Cons:
  "delivered_signatures ((e, a) # batch) =
     (if relay_transaction (processed_data e) (http a) = Inr True then {signature e} else {})
       \<union> delivered_signatures batch"
  by (simp add: delivered_signatures_def)

lemma process_event_dict:
  assumes pe: "processed_events s = JDict kvs"
    and r: "relay_transaction (processed_data ev) (http a) = Inr b"
  shows "fst (process_event s ev a) = None"
    and "processed_events (snd (process_event s ev a)) =
          JDict (if b \<and> signature ev \<notin> fst ` set kvs
                 then AList.update (signature ev)
                        (JDict [(''data'', processed_data ev), (''processed_at'', JFloat (clock a))]) kvs
                 else kvs)"
    and "committed (trace (snd (process_event s ev a))) =
          committed (trace s) @ (if b \<and> signature ev \<notin> fst ` set kvs then [signature ev] else [])"
    and "dispatched (trace (snd (process_event s ev a))) =
          dispatched (trace s) @ (if signature ev \<notin> fst ` set kvs then [processed_data ev] else [])"
proof -
  have unf: "process_event s ev a =
      (if signature ev \<in> fst ` set kvs then (None, s)
       else if b then
         (None, save_state (emit (Commit (signature ev))
            ((emit (Dispatch (processed_data ev)) s)
               \<lparr>processed_events := JDict (AList.update (signature ev)
                  (JDict [(''data'', processed_data ev), (''processed_at'', JFloat (clock a))])
                  kvs)\<rparr>)) (save a))
       else (None, emit (Dispatch (processed_data ev)) s))"
    using pe r
    by (simp add: process_event_def is_event_processed_def mark_event_as_processed_def
          emit_fields Let_def)
  show "fst (process_event s ev a) = None"
    unfolding unf by simp
  show "processed_events (snd (process_event s ev a)) =
          JDict (if b \<and> signature ev \<notin> fst ` set kvs
                 then AList.update (signature ev)
                        (JDict [(''data'', processed_data ev), (''processed_at'', JFloat (clock a))]) kvs
                 else kvs)"
    unfolding unf using pe by (simp add: save_state_fields emit_fields emit_def)
  show "committed (trace (snd (process_event s ev a))) =
          committed (trace s) @ (if b \<and> signature ev \<notin> fst ` set kvs then [signature ev] else [])"
    unfolding unf by (simp add: save_state_fields emit_def committed_append)
  show "dispatched (trace (snd (process_event s ev a))) =
          dispatched (trace s) @ (if signature ev \<notin> fst ` set kvs then [processed_data ev] else [])"
    unfolding unf by (simp add: save_state_fields emit_def dispatched_append)
qed



lemma process_event_step:
  assumes pe: "processed_events s = JDict kvs"
    and r: "relay_transaction (processed_data ev) (http a) = Inr b"
  shows "\<exists>s1 kvs1. process_event s ev a = (None, s1) \<and> processed_events s1 = JDict kvs1 \<and>
           fst ` set kvs1 = fst ` set kvs \<union> (if b then {signature ev} else {}) \<and>
           (\<forall>k \<in> fst ` set kvs. map_of kvs1 k = map_of kvs k) \<and>
           committed (trace s1) =
             committed (trace s) @
               (if b \<and> signature ev \<notin> fst ` set kvs then [signature ev] else [])"
proof (cases "b \<and> signature ev \<notin> fst ` set kvs")
  case True
  let ?kvs1 = "AList.update (signature ev)
      (JDict [(''data'', processed_data ev), (''processed_at'', JFloat (clock a))]) kvs"
  let ?s1 = "snd (process_event s ev a)"
  have "process_event s ev a = (None, ?s1)"
    using process_event_dict(1) [OF pe r] by (simp add: prod_eq_iff)
  moreover have "processed_events ?s1 = JDict ?kvs1"
    using process_event_dict(2) [OF pe r] True by simp
  moreover have "fst ` set ?kvs1 = fst ` set kvs \<union> (if b then {signature ev} else {})"
    using True by (simp add: dom_update)
  moreover have "\<forall>k \<in> fst ` set kvs. map_of ?kvs1 k = map_of kvs k"
  proof
    fix k assume "k \<in> fst ` set kvs"
    then have "k \<noteq> signature ev" using True by blast
    then show "map_of ?kvs1 k = map_of kvs k" by (simp add: update_conv')
  qed
  moreover have "committed (trace ?s1) = committed (trace s) @
      (if b \<and> signature ev \<notin> fst ` set kvs then [signature ev] else [])"
    using process_event_dict(3) [OF pe r] by simp
  ultimately show ?thesis by blast
next
  case False
  let ?s1 = "snd (process_event s ev a)"
  have "process_event s ev a = (None, ?s1)"
    using process_event_dict(1) [OF pe r] by (simp add: prod_eq_iff)
  moreover have "processed_events ?s1 = JDict kvs"
    using process_event_dict(2) [OF pe r] False by simp
  moreover have "fst ` set kvs = fst ` set kvs \<union> (if b then {signature ev} else {})"
    using False by auto
  moreover have "committed (trace ?s1) = committed (trace s) @
      (if b \<and> signature ev \<notin> fst ` set kvs then [signature ev] else [])"
    using process_event_dict(3) [OF pe r] by simp
  ultimately show ?thesis by blast
qed


lemma process_events_dict:
  assumes "\<forall>(e, a) \<in> set batch. \<exists>b. relay_transaction (processed_data e) (http a) = Inr b"
    and "processed_events s = JDict kvs"
  shows "\<exists>s' kvs' cs. process_events s batch = (None, s') \<and>
           processed_events s' = JDict kvs' \<and>
           fst ` set kvs' = fst ` set kvs \<union> delivered_signatures batch \<and>
           (\<forall>k \<in> fst ` set kvs. map_of kvs' k = map_of kvs k) \<and>
           committed (trace s') = committed (trace s) @ cs \<and> distinct cs \<and>
           set cs = delivered_signatures batch - fst ` set kvs"
  using assms
proof (induction batch arbitrary: s kvs)
  case Nil
  then show ?case by (simp add: delivered_signatures_Nil)
next
  case (Cons x batch)
  obtain ev a where x: "x = (ev, a)" by (cases x)
  obtain b where b: "relay_transaction (processed_data ev) (http a) = Inr b"
    using Cons.prems(1) x by auto
  let ?c1 = "if b \<and> signature ev \<notin> fst ` set kvs then [signature ev] else []"
  obtain s1 kvs1 where step: "process_event s ev a = (None, s1)"
      and pe1: "processed_events s1 = JDict kvs1"
      and keys1: "fst ` set kvs1 = fst ` set kvs \<union> (if b then {signature ev} else {})"
      and old1: "\<forall>k \<in> fst ` set kvs. map_of kvs1 k = map_of kvs k"
      and c1: "committed (trace s1) = committed (trace s) @ ?c1"
    using process_event_step [OF Cons.prems(2) b] by blast
  have rest: "\<forall>(e, a) \<in> set batch. \<exists>b. relay_transaction (processed_data e) (http a) = Inr b"
    using Cons.prems(1) by simp
  obtain s' kvs' cs where run: "process_events s1 batch = (None, s')"
      and pe': "processed_events s' = JDict kvs'"
      and keys': "fst ` set kvs' = fst ` set kvs1 \<union> delivered_signatures batch"
      and old': "\<forall>k \<in> fst ` set kvs1. map_of kvs' k = map_of kvs1 k"
      and c': "committed (trace s') = committed (trace s1) @ cs"
      and dist: "distinct cs"
      and cs: "set cs = delivered_signatures batch - fst ` set kvs1"
    using Cons.IH [OF rest pe1] by (elim exE conjE) (rule that)
  have del: "delivered_signatures (x # batch) =
      (if b then {signature ev} else {}) \<union> delivered_signatures batch"
    using b x by (simp add: delivered_signatures_Cons)
  have "process_events s (x # batch) = (None, s')" using x step run by simp
  moreover have "fst ` set kvs' = fst ` set kvs \<union> delivered_signatures (x # batch)"
    unfolding keys' keys1 del by blast
  moreover have "\<forall>k \<in> fst ` set kvs. map_of kvs' k = map_of kvs k"
  proof
    fix k assume k: "k \<in> fst ` set kvs"
    then have "k \<in> fst ` set kvs1" using keys1 by blast
    then have "map_of kvs' k = map_of kvs1 k" using old' by blast
    also have "\<dots> = map_of kvs k" using old1 k by blast
    finally show "map_of kvs' k = map_of kvs k" .
  qed
  moreover have "committed (trace s') = committed (trace s) @ (?c1 @ cs)"
    using c' c1 by simp
  moreover have "distinct (?c1 @ cs)" using dist cs keys1 by auto
  moreover have "set (?c1 @ cs) = delivered_signatures (x # batch) - fst ` set kvs"
  proof -
    have "set (if b \<and> k \<notin> K then [k] else []) = (if b then {k} else {}) - K"
      for k :: string and K
      by auto
    then have "set ?c1 = (if b then {signature ev} else {}) - fst ` set kvs" .
    moreover have "set cs =
        delivered_signatures batch - (fst ` set kvs \<union> (if b then {signature ev} else {}))"
      using cs keys1 by simp
    ultimately show ?thesis unfolding del set_append by blast
  qed
  ultimately show ?case using pe' by blast
qed


lemma signature_example_event: "signature example_event = ''0xabc-2''"
  by (simp add: signature_def example_event_def str_int_def digits.simps)


subsection \<open>The state file and exceptions along a batch\<close>






subsection \<open>The scan window\<close>

text \<open>
  C2. Whatever the chain height \<open>H\<close> and the confirmation depth, a poll cycle requests
  at most one block range from the chain, and the upper bound of a requested range never
  exceeds \<open>H\<close> minus the confirmation depth (when the height is unknown, no range is
  requested at all).
\<close>

theorem window_safety:
  "\<exists>r. scanned (trace (poll_cycle s c)) = scanned (trace s) @ r \<and>
       (\<forall>(a, b) \<in> set r. \<exists>H. latest_block c = Some H \<and>
                              b \<le> H - reorg_confirmation_depth s)"
proof (cases "latest_block c")
  case None
  then show ?thesis using poll_cycle_scanned [of s c] by simp
next
  case (Some H)
  then show ?thesis using poll_cycle_scanned [of s c] by simp
qed

theorem window_safety_witness:
  "scanned (trace (poll_cycle example_system example_cycle)) = [(80, 95)] \<and>
   latest_block example_cycle = Some 100 \<and>
   (95::int) \<le> 100 - reorg_confirmation_depth example_system"
  using window_safety [of example_system example_cycle] poll_cycle_scanned [of example_system example_cycle]
  by (simp add: example_system_def example_cycle_def)

text \<open>
  C3. Along any sequence of poll cycles the scan cursor \<open>current_block\<close> never
  decreases: its value after the first \<open>i\<close> cycles is at most its value after the first
  \<open>j\<close> cycles, for \<open>i \<le> j\<close>.
\<close>

theorem cursor_monotone:
  assumes "i \<le> j"
  shows "current_block (start s (take i cs)) \<le> current_block (start s (take j cs))"
proof -
  have "take j cs = take i cs @ take (j - i) (drop i cs)"
    using assms take_add [of i "j - i" cs] by simp
  then have "start s (take j cs) = start (start s (take i cs)) (take (j - i) (drop i cs))"
    by (simp add: start_append)
  then show ?thesis
    using start_cursor_mono [of "start s (take i cs)" "take (j - i) (drop i cs)"] by simp
qed

theorem cursor_monotone_witness:
  "(0::nat) \<le> 1 \<and>
   current_block (start example_system (take 0 [example_cycle, failing_cycle])) \<le>
   current_block (start example_system (take 1 [example_cycle, failing_cycle]))"
  using cursor_monotone [of 0 1 example_system "[example_cycle, failing_cycle]"]
  by simp

subsection \<open>Batches\<close>





subsection \<open>One poll cycle\<close>

text \<open>
  C6, as stated, fails: the cursor is not advanced when the processing of an event raises,
  as it does after a successful dispatch on a ledger that is a list, or when
  \<^verbatim>\<open>response.json()\<close> lets a \<^verbatim>\<open>ValueError\<close> escape from the dispatch.
\<close>

theorem cursor_not_advanced_counterexample:
  "init (Holds (JList [])) 80 = Inr list_system \<and>
   latest_block example_cycle = Some 100 \<and>
   entries example_cycle = Inr example_batch \<and>
   reorg_confirmation_depth list_system = 5 \<and>
   relay_transaction (processed_data example_event) (http delivered) = Inr True \<and>
   scanned (trace (poll_cycle list_system example_cycle)) = [(80, 95)] \<and>
   current_block (poll_cycle list_system example_cycle) = 80 \<and>
   http no_content = Response 204 RaisesValueError \<and>
   scanned (trace (poll_cycle example_system
      \<lparr>latest_block = Some 100, entries = Inr [(example_event, no_content)]\<rparr>)) = [(80, 95)] \<and>
   current_block (poll_cycle example_system
      \<lparr>latest_block = Some 100, entries = Inr [(example_event, no_content)]\<rparr>) = 80"
  by (simp add: init_def list_system_def example_system_def example_cycle_def
        example_batch_def poll_cycle_def process_event_def is_event_processed_def
        mark_event_as_processed_def emit_def delivered_def server_error_def no_content_def
        signature_example_event Let_def)


text \<open>
  C6, amended. In a poll cycle that learns the chain height \<open>H\<close>, the safe height is \<open>H\<close>
  minus the confirmation depth. If the cursor exceeds it, no range is requested and the
  cursor is unchanged. Otherwise exactly the inclusive range from the cursor to the safe
  height is requested, and the cursor becomes the safe height plus one exactly when
  neither the fetch nor the processing of an event raises; an exception leaves the cursor
  as it was. On a dict ledger, when the logs are fetched and each dispatch returns success
  or failure, the cursor is advanced whatever the dispatch outcomes of the events. With
  height 100, depth 5 and cursor 80 the range is [80, 95] and the cursor becomes 96.
\<close>

theorem window_computation:
  assumes "latest_block c = Some H"
  shows "(current_block s > H - reorg_confirmation_depth s \<longrightarrow>
           scanned (trace (poll_cycle s c)) = scanned (trace s) \<and>
           current_block (poll_cycle s c) = current_block s) \<and>
         (current_block s \<le> H - reorg_confirmation_depth s \<longrightarrow>
           scanned (trace (poll_cycle s c)) =
             scanned (trace s) @ [(current_block s, H - reorg_confirmation_depth s)] \<and>
           current_block (poll_cycle s c) =
             (case entries c of
                Inl err \<Rightarrow> current_block s
              | Inr events \<Rightarrow>
                  (case fst (process_events
                         (emit (GetLogs (current_block s) (H - reorg_confirmation_depth s)) s)
                         events) of
                     None \<Rightarrow> H - reorg_confirmation_depth s + 1
                   | Some err \<Rightarrow> current_block s)) \<and>
           (\<forall>events kvs.
              entries c = Inr events \<and> processed_events s = JDict kvs \<and>
              (\<forall>(e, a) \<in> set events.
                 \<exists>b. relay_transaction (processed_data e) (http a) = Inr b) \<longrightarrow>
              current_block (poll_cycle s c) = H - reorg_confirmation_depth s + 1))"
proof (intro conjI impI allI)
  assume gt: "current_block s > H - reorg_confirmation_depth s"
  show "scanned (trace (poll_cycle s c)) = scanned (trace s)"
    using gt assms poll_cycle_scanned [of s c] by simp
  show "current_block (poll_cycle s c) = current_block s"
    using gt assms by (simp add: poll_cycle_def emit_fields)
next
  assume le: "current_block s \<le> H - reorg_confirmation_depth s"
  let ?t = "H - reorg_confirmation_depth s"
  let ?s1 = "emit (GetLogs (current_block s) ?t) s"
  show "scanned (trace (poll_cycle s c)) = scanned (trace s) @ [(current_block s, ?t)]"
    using le assms poll_cycle_scanned [of s c] by simp
  show cur: "current_block (poll_cycle s c) =
      (case entries c of
         Inl err \<Rightarrow> current_block s
       | Inr events \<Rightarrow>
           (case fst (process_events ?s1 events) of
              None \<Rightarrow> ?t + 1
            | Some err \<Rightarrow> current_block s))"
  proof (cases "entries c")
    case (Inl err)
    then show ?thesis using le assms by (simp add: poll_cycle_def emit_fields Let_def)
  next
    case (Inr events)
    obtain r s2 where run: "process_events ?s1 events = (r, s2)"
      by (cases "process_events ?s1 events")
    have "same_listener ?s1 s2"
      using process_events_same_listener [of ?s1 events] run by simp
    then have "current_block s2 = current_block s"
      by (simp add: same_listener_def emit_fields)
    then show ?thesis
      using le assms Inr run by (cases r) (simp_all add: poll_cycle_def emit_fields Let_def)
  qed
  fix events kvs
  assume h: "entries c = Inr events \<and> processed_events s = JDict kvs \<and>
      (\<forall>(e, a) \<in> set events. \<exists>b. relay_transaction (processed_data e) (http a) = Inr b)"
  have pe1: "processed_events ?s1 = JDict kvs" using h by (simp add: emit_fields)
  have rs: "\<forall>(e, a) \<in> set events. \<exists>b. relay_transaction (processed_data e) (http a) = Inr b"
    using h by (rule conjunct2 [THEN conjunct2])
  obtain s2 where run: "process_events ?s1 events = (None, s2)"
    using process_events_dict [OF rs pe1] by (elim exE conjE) (rule that)
  show "current_block (poll_cycle s c) = ?t + 1"
    unfolding cur using h run by simp
qed

theorem window_computation_witness:
  "latest_block example_cycle = Some 100 \<and> entries example_cycle = Inr example_batch \<and>
   processed_events example_system = JDict [] \<and>
   reorg_confirmation_depth example_system = 5 \<and> current_block example_system = 80 \<and>
   relay_transaction (processed_data example_event) (http delivered) = Inr True \<and>
   relay_transaction (processed_data other_event) (http server_error) = Inr False \<and>
   scanned (trace (poll_cycle example_system example_cycle)) = [(80, 95)] \<and>
   current_block (poll_cycle example_system example_cycle) = 96"
proof -
  have h1: "latest_block example_cycle = Some 100"
    and h2: "entries example_cycle = Inr example_batch"
    by (simp_all add: example_cycle_def)
  have h3: "processed_events example_system = JDict []"
    and d: "reorg_confirmation_depth example_system = 5"
    and cb: "current_block example_system = 80"
    and tr: "trace example_system = []"
    by (simp_all add: example_system_def)
  have r1: "relay_transaction (processed_data example_event) (http delivered) = Inr True"
    and r2: "relay_transaction (processed_data other_event) (http server_error) = Inr False"
    by (simp_all add: delivered_def server_error_def)
  have h4: "\<forall>(e, a) \<in> set example_batch.
      \<exists>b. relay_transaction (processed_data e) (http a) = Inr b"
    using r1 r2 by (auto simp: example_batch_def)
  have le: "current_block example_system \<le> 100 - reorg_confirmation_depth example_system"
    using d cb by simp
  note th = window_computation [OF h1, of example_system, THEN conjunct2, THEN mp, OF le]
  have sc: "scanned (trace (poll_cycle example_system example_cycle)) = [(80, 95)]"
    using th [THEN conjunct1] d cb tr by simp
  have "current_block (poll_cycle example_system example_cycle) =
      100 - reorg_confirmation_depth example_system + 1"
    using th [THEN conjunct2, THEN conjunct2] h2 h3 h4 by blast
  then have cur: "current_block (poll_cycle example_system example_cycle) = 96"
    using d by simp
  show ?thesis using h1 h2 h3 d cb r1 r2 sc cur by simp
qed


text \<open>
  C9. When fetching the logs of the computed range raises, the poll cycle changes nothing
  but the trace: the request is followed by a sleep of twice the poll interval and the
  sleep that ends the iteration; the cursor, the ledger and the state file are as before.
  So the next cycle computes its range from the same cursor: with a chain height \<open>H'\<close>
  not below the previous one it requests the range from the same block up to \<open>H'\<close> minus
  the depth, which for the same height is the same range.
\<close>

theorem fetch_failure_keeps_cursor:
  assumes "latest_block c = Some H"
    and "current_block s \<le> H - reorg_confirmation_depth s"
    and "entries c = Inl e"
  shows "poll_cycle s c =
           s\<lparr>trace := trace s @ [GetLogs (current_block s) (H - reorg_confirmation_depth s),
                                  Sleep (poll_interval s * 2), Sleep (poll_interval s)]\<rparr> \<and>
         (\<forall>c' H'. latest_block c' = Some H' \<and> H \<le> H' \<longrightarrow>
            scanned (trace (poll_cycle (poll_cycle s c) c')) =
              scanned (trace (poll_cycle s c)) @
                [(current_block s, H' - reorg_confirmation_depth s)])"
proof -
  let ?s' = "s\<lparr>trace := trace s @ [GetLogs (current_block s) (H - reorg_confirmation_depth s),
                                  Sleep (poll_interval s * 2), Sleep (poll_interval s)]\<rparr>"
  have eq: "poll_cycle s c = ?s'"
    using assms by (simp add: poll_cycle_def emit_def Let_def)
  have "scanned (trace (poll_cycle ?s' c')) =
          scanned (trace ?s') @ [(current_block s, H' - reorg_confirmation_depth s)]"
    if "latest_block c' = Some H'" "H \<le> H'" for c' H'
    using that assms(2) poll_cycle_scanned [of ?s' c'] by simp
  then show ?thesis unfolding eq by blast
qed

theorem fetch_failure_keeps_cursor_witness:
  "latest_block failing_cycle = Some 100 \<and> entries failing_cycle = Inl ChainError \<and>
   current_block example_system \<le> 100 - reorg_confirmation_depth example_system \<and>
   current_block (poll_cycle example_system failing_cycle) = 80 \<and>
   trace (poll_cycle example_system failing_cycle) = [GetLogs 80 95, Sleep 30, Sleep 15] \<and>
   latest_block example_cycle = Some 100 \<and>
   scanned (trace (poll_cycle (poll_cycle example_system failing_cycle) example_cycle)) =
     [(80, 95), (80, 95)]"
proof -
  have h1: "latest_block failing_cycle = Some 100"
    and h3: "entries failing_cycle = Inl ChainError"
    by (simp_all add: failing_cycle_def)
  have h2: "current_block example_system \<le> 100 - reorg_confirmation_depth example_system"
    by (simp add: example_system_def)
  have h4: "latest_block example_cycle = Some 100"
    by (simp add: example_cycle_def)
  note th = fetch_failure_keeps_cursor [OF h1 h2 h3]
  have a: "poll_cycle example_system failing_cycle =
      example_system\<lparr>trace := [GetLogs 80 95, Sleep 30, Sleep 15]\<rparr>"
    using th by (simp add: example_system_def)
  have "scanned (trace (poll_cycle (poll_cycle example_system failing_cycle) example_cycle)) =
      scanned (trace (poll_cycle example_system failing_cycle)) @
        [(current_block example_system, 100 - reorg_confirmation_depth example_system)]"
    using th h4 by blast
  then have b: "scanned (trace (poll_cycle (poll_cycle example_system failing_cycle)
      example_cycle)) = [(80, 95), (80, 95)]"
    unfolding a by (simp add: example_system_def)
  show ?thesis using h1 h2 h3 h4 a b by (simp add: example_system_def)
qed


subsection \<open>Processing one event twice\<close>

text \<open>
  C1, as stated, fails: an event whose dispatch fails is dispatched again by the second
  call, so two calls make two dispatch calls and no commit.
\<close>

theorem process_event_twice_counterexample:
  "is_event_processed example_system (signature example_event) = Inr False \<and>
   dispatched (trace (snd (process_event
       (snd (process_event example_system example_event server_error))
       example_event server_error))) =
     [processed_data example_event, processed_data example_event] \<and>
   committed (trace (snd (process_event
       (snd (process_event example_system example_event server_error))
       example_event server_error))) = []"
  by (simp add: process_event_def is_event_processed_def emit_def
        signature_example_event server_error_def example_system_def)

text \<open>
  C1, amended. When the ledger already contains the signature of an event,
  \<^verbatim>\<open>process_event\<close> makes no dispatch call and leaves the whole state unchanged. When the
  ledger is a dict without the signature and the first dispatch succeeds, two calls make
  exactly one dispatch call and exactly one commit: the second call changes nothing.
\<close>

theorem process_event_idempotent:
  "(is_event_processed s (signature e) = Inr True \<longrightarrow> process_event s e a = (None, s)) \<and>
   (processed_events s = JDict kvs \<and> signature e \<notin> fst ` set kvs \<and>
    relay_transaction (processed_data e) (http a1) = Inr True \<longrightarrow>
      fst (process_event s e a1) = None \<and>
      process_event (snd (process_event s e a1)) e a2 = (None, snd (process_event s e a1)) \<and>
      dispatched (trace (snd (process_event (snd (process_event s e a1)) e a2))) =
        dispatched (trace s) @ [processed_data e] \<and>
      committed (trace (snd (process_event (snd (process_event s e a1)) e a2))) =
        committed (trace s) @ [signature e])"
proof (intro conjI impI)
  assume "is_event_processed s (signature e) = Inr True"
  then show "process_event s e a = (None, s)" by (simp add: process_event_def)
next
  assume h: "processed_events s = JDict kvs \<and> signature e \<notin> fst ` set kvs \<and>
    relay_transaction (processed_data e) (http a1) = Inr True"
  then have pe: "processed_events s = JDict kvs"
    and new: "signature e \<notin> fst ` set kvs"
    and ok: "relay_transaction (processed_data e) (http a1) = Inr True"
    by simp_all
  let ?s1 = "snd (process_event s e a1)"
  show none: "fst (process_event s e a1) = None"
    using process_event_dict(1) [OF pe ok] .
  have "processed_events ?s1 = JDict (AList.update (signature e)
      (JDict [(''data'', processed_data e), (''processed_at'', JFloat (clock a1))]) kvs)"
    using process_event_dict(2) [OF pe ok] new by simp
  then have "is_event_processed ?s1 (signature e) = Inr True"
    by (simp add: is_event_processed_def dom_update)
  then show second: "process_event ?s1 e a2 = (None, ?s1)"
    by (simp add: process_event_def)
  show "dispatched (trace (snd (process_event ?s1 e a2))) =
      dispatched (trace s) @ [processed_data e]"
    unfolding second using process_event_dict(4) [OF pe ok] new by simp
  show "committed (trace (snd (process_event ?s1 e a2))) =
      committed (trace s) @ [signature e]"
    unfolding second using process_event_dict(3) [OF pe ok] new by simp
qed

theorem process_event_idempotent_witness:
  "processed_events example_system = JDict [] \<and>
   signature example_event \<notin> fst ` set ([] :: (string \<times> json) list) \<and>
   relay_transaction (processed_data example_event) (http delivered) = Inr True \<and>
   dispatched (trace (snd (process_event
       (snd (process_event example_system example_event delivered))
       example_event delivered))) = [processed_data example_event] \<and>
   committed (trace (snd (process_event
       (snd (process_event example_system example_event delivered))
       example_event delivered))) = [''0xabc-2''] \<and>
   is_event_processed (snd (process_event example_system example_event delivered))
     (signature example_event) = Inr True"
proof -
  have h: "processed_events example_system = JDict [] \<and>
      signature example_event \<notin> fst ` set ([] :: (string \<times> json) list) \<and>
      relay_transaction (processed_data example_event) (http delivered) = Inr True"
    by (simp add: example_system_def delivered_def)
  have mem: "is_event_processed (snd (process_event example_system example_event delivered))
     (signature example_event) = Inr True"
    by (simp add: process_event_def is_event_processed_def mark_event_as_processed_def
          emit_def save_state_fields signature_example_event delivered_def example_system_def)
  note th2 = process_event_idempotent
    [of example_system example_event delivered "[]" delivered delivered]
  have c: "dispatched (trace (snd (process_event
       (snd (process_event example_system example_event delivered))
       example_event delivered))) = dispatched (trace example_system) @ [processed_data example_event] \<and>
     committed (trace (snd (process_event
       (snd (process_event example_system example_event delivered))
       example_event delivered))) = committed (trace example_system) @ [signature example_event]"
    using th2 h by blast
  have t: "trace example_system = []" by (simp add: example_system_def)
  show ?thesis
    using h c mem unfolding t by (simp add: signature_example_event)
qed


subsection \<open>Committing to the ledger\<close>

text \<open>
  C4, as stated, fails: when the state file cannot be opened for writing,
  \<^verbatim>\<open>mark_event_as_processed\<close> does not fail and keeps the in-memory insert, so
  \<^verbatim>\<open>is_event_processed\<close> says yes for a signature that the persisted store does not
  hold.
\<close>

theorem commit_io_error_counterexample:
  "fst (mark_event_as_processed example_system ''0xabc-2'' (processed_data example_event)
          1700000002 OpenFailed) = None \<and>
   is_event_processed
     (snd (mark_event_as_processed example_system ''0xabc-2'' (processed_data example_event)
             1700000002 OpenFailed)) ''0xabc-2'' = Inr True \<and>
   load_state (state_file
     (snd (mark_event_as_processed example_system ''0xabc-2'' (processed_data example_event)
             1700000002 OpenFailed))) = Inr (JDict []) \<and>
   py_contains (JDict []) ''0xabc-2'' = Inr False"
  by (simp add: mark_event_as_processed_def is_event_processed_def emit_def
        example_system_def)

text \<open>
  C4, amended. On a dict ledger \<^verbatim>\<open>mark_event_as_processed\<close> never fails, also not on a
  storage I/O error, which \<^verbatim>\<open>_save_state\<close> catches and logs. The in-memory insert is
  kept whatever the outcome of the write, so \<^verbatim>\<open>is_event_processed\<close> is true for the
  signature afterwards. The state file holds the new ledger after a successful write, is
  as before when it could not be opened, and is left unparseable when the write broke off.
\<close>

theorem commit_keeps_insert:
  assumes "processed_events s = JDict kvs"
  shows "fst (mark_event_as_processed s k d now w) = None \<and>
         processed_events (snd (mark_event_as_processed s k d now w)) =
           JDict (AList.update k (JDict [(''data'', d), (''processed_at'', JFloat now)]) kvs) \<and>
         is_event_processed (snd (mark_event_as_processed s k d now w)) k = Inr True \<and>
         state_file (snd (mark_event_as_processed s k d now w)) =
           (case w of
              Written \<Rightarrow> Holds (processed_events (snd (mark_event_as_processed s k d now w)))
            | OpenFailed \<Rightarrow> state_file s
            | DumpFailed \<Rightarrow> Malformed)"
  using assms
  by (cases w)
     (simp_all add: mark_event_as_processed_def is_event_processed_def emit_def dom_update)

theorem commit_keeps_insert_witness:
  "processed_events example_system = JDict [] \<and>
   fst (mark_event_as_processed example_system ''0xabc-3'' (processed_data other_event)
          1700000001 DumpFailed) = None \<and>
   is_event_processed
     (snd (mark_event_as_processed example_system ''0xabc-3'' (processed_data other_event)
             1700000001 DumpFailed)) ''0xabc-3'' = Inr True \<and>
   state_file
     (snd (mark_event_as_processed example_system ''0xabc-3'' (processed_data other_event)
             1700000001 DumpFailed)) = Malformed"
proof -
  have h: "processed_events example_system = JDict []"
    by (simp add: example_system_def)
  show ?thesis
    using commit_keeps_insert [OF h, of "''0xabc-3''" "processed_data other_event"
        1700000001 DumpFailed] h
    by simp
qed

subsection \<open>Loading the ledger\<close>




text \<open>
  C10, as stated, fails: a state file that holds the empty object is present and valid
  JSON, and \<^verbatim>\<open>_load_state\<close> returns the empty ledger for it; a JSON text with an
  over-long integer makes it raise; a text with \<^verbatim>\<open>NaN\<close>, which is not JSON, is loaded as
  a ledger that is not empty; and after a number is returned \<^verbatim>\<open>StateDB.__init__\<close>
  raises, so that no call of \<^verbatim>\<open>is_event_processed\<close> follows.
\<close>

theorem load_state_empty_object_counterexample:
  "load_state (Holds (JDict [])) = Inr (JDict []) \<and> Holds (JDict []) \<noteq> Absent \<and>
   Holds (JDict []) \<noteq> Malformed \<and>
   load_state Overlong = Inl ValueError \<and>
   load_state (Holds (JDict [(''k'', JNaN)])) = Inr (JDict [(''k'', JNaN)]) \<and>
   load_state (Holds (JInt 7)) = Inr (JInt 7) \<and>
   init (Holds (JInt 7)) 80 = Inl TypeError"
  by (simp add: init_def)

text \<open>
  C10, amended. \<^verbatim>\<open>_load_state\<close> returns the empty ledger exactly when the state file
  is absent, \<^verbatim>\<open>json.load\<close> raises \<^verbatim>\<open>JSONDecodeError\<close>, or \<^verbatim>\<open>json.load\<close> returns the
  empty object; when \<^verbatim>\<open>open\<close> or \<^verbatim>\<open>json.load\<close> raises another exception it
  propagates; every value \<^verbatim>\<open>json.load\<close> returns is returned as it is, a list or a
  number too. For a dict, a list or a string \<^verbatim>\<open>StateDB.__init__\<close> succeeds and
  \<^verbatim>\<open>is_event_processed\<close> is Python's membership test against that value (element
  equality for a list); for any other value \<^verbatim>\<open>StateDB.__init__\<close> raises
  \<^verbatim>\<open>TypeError\<close> at \<^verbatim>\<open>len\<close>.
\<close>

theorem load_state_characterisation:
  "(load_state f = Inr (JDict []) \<longleftrightarrow> f = Absent \<or> f = Malformed \<or> f = Holds (JDict [])) \<and>
   (load_state f = Inr j \<and> j \<noteq> JDict [] \<longleftrightarrow> f = Holds j \<and> j \<noteq> JDict []) \<and>
   ((\<exists>e. load_state f = Inl e) \<longleftrightarrow>
      f = Inaccessible \<or> f = Undecodable \<or> f = Overlong \<or> f = TooDeep) \<and>
   load_state (Holds j) = Inr j \<and>
   (init (Holds j) b = Inr s \<longrightarrow>
      processed_events s = j \<and> state_file s = Holds j \<and>
      (\<forall>k. is_event_processed s k = py_contains j k)) \<and>
   ((\<exists>s. init (Holds j) b = Inr s) \<longleftrightarrow>
      (\<exists>kvs. j = JDict kvs) \<or> (\<exists>xs. j = JList xs) \<or> (\<exists>t. j = JStr t)) \<and>
   ((\<forall>kvs. j \<noteq> JDict kvs) \<and> (\<forall>xs. j \<noteq> JList xs) \<and> (\<forall>t. j \<noteq> JStr t) \<longrightarrow>
      init (Holds j) b = Inl TypeError) \<and>
   (init (Holds (JList xs)) b = Inr s \<longrightarrow>
      (\<forall>k. is_event_processed s k = Inr (JStr k \<in> set xs)))"
proof -
  have a: "load_state f = Inr (JDict []) \<longleftrightarrow> f = Absent \<or> f = Malformed \<or> f = Holds (JDict [])"
    by (cases f) auto
  have b: "load_state f = Inr j \<and> j \<noteq> JDict [] \<longleftrightarrow> f = Holds j \<and> j \<noteq> JDict []"
    by (cases f) auto
  have c: "(\<exists>e. load_state f = Inl e) \<longleftrightarrow>
      f = Inaccessible \<or> f = Undecodable \<or> f = Overlong \<or> f = TooDeep"
    by (cases f) auto
  have d: "init (Holds j) b = Inr s \<longrightarrow>
      processed_events s = j \<and> state_file s = Holds j \<and>
      (\<forall>k. is_event_processed s k = py_contains j k)"
    by (cases j) (auto simp: init_def is_event_processed_def)
  have e: "(\<exists>s. init (Holds j) b = Inr s) \<longleftrightarrow>
      (\<exists>kvs. j = JDict kvs) \<or> (\<exists>xs. j = JList xs) \<or> (\<exists>t. j = JStr t)"
    by (cases j) (simp_all add: init_def)
  have g: "(\<forall>kvs. j \<noteq> JDict kvs) \<and> (\<forall>xs. j \<noteq> JList xs) \<and> (\<forall>t. j \<noteq> JStr t) \<longrightarrow>
      init (Holds j) b = Inl TypeError"
    by (cases j) (simp_all add: init_def)
  have h: "init (Holds (JList xs)) b = Inr s \<longrightarrow>
      (\<forall>k. is_event_processed s k = Inr (JStr k \<in> set xs))"
    by (auto simp: init_def is_event_processed_def)
  show ?thesis using a b c d e g h by simp
qed

theorem load_state_characterisation_witness:
  "init (Holds (JList [JStr ''0xabc-2''])) 80 =
     Inr (list_system\<lparr>processed_events := JList [JStr ''0xabc-2''],
                      state_file := Holds (JList [JStr ''0xabc-2''])\<rparr>) \<and>
   is_event_processed
     (list_system\<lparr>processed_events := JList [JStr ''0xabc-2''],
                  state_file := Holds (JList [JStr ''0xabc-2''])\<rparr>) ''0xabc-2'' = Inr True \<and>
   is_event_processed
     (list_system\<lparr>processed_events := JList [JStr ''0xabc-2''],
                  state_file := Holds (JList [JStr ''0xabc-2''])\<rparr>) ''0xabc'' = Inr False \<and>
   init (Holds (JInt 7)) 80 = Inl TypeError"
proof -
  let ?j = "JList [JStr ''0xabc-2'']"
  let ?s = "list_system\<lparr>processed_events := ?j, state_file := Holds ?j\<rparr>"
  have i: "init (Holds ?j) 80 = Inr ?s"
    by (simp add: init_def list_system_def)
  note th = load_state_characterisation [of "Holds ?j" ?j 80 ?s "[JStr ''0xabc-2'']"]
  have m: "\<forall>k. is_event_processed ?s k = Inr (JStr k \<in> set [JStr ''0xabc-2''])"
    using th i by blast
  have n: "init (Holds (JInt 7)) 80 = Inl TypeError"
    using load_state_characterisation [of Absent "JInt 7" 80] by simp
  show ?thesis using i m n by simp
qed

subsection \<open>The relay dispatcher\<close>

text \<open>
  C8 says that \<^verbatim>\<open>relay_transaction\<close> returns success for any 2xx response and failure
  for anything else. The code does not: for a 204 response whose body is not JSON the call
  of \<^verbatim>\<open>response.json()\<close> in the log line raises inside the \<^verbatim>\<open>try\<close>, and the function
  returns \<open>False\<close> (or lets a \<^verbatim>\<open>ValueError\<close> escape, with an older requests library);
  and a 304 response with a JSON body returns \<open>True\<close>.
\<close>

theorem relay_2xx_without_json_body:
  "relay_transaction (processed_data example_event) (Response 204 RaisesRequestException) =
     Inr False \<and>
   relay_transaction (processed_data example_event) (Response 204 RaisesValueError) =
     Inl ValueError \<and>
   relay_transaction (processed_data example_event) (Response 304 Decodes) = Inr True"
  by simp


end

